theory Spec2Isabelle
  imports Complex_Main "HOL-Library.Product_Lexorder"
begin

section \<open>Data model (resilience/strategies.py)\<close>

text \<open>
  Durations (\<open>timedelta\<close>) and points in time (\<open>datetime\<close>, \<open>time.monotonic()\<close>)
  are rationals, in seconds, and a finite double is the rational it stands for. An
  \<open>HTTPStatus\<close> is its integer code.
\<close>

type_synonym status = nat

definition OK :: status where
  "OK = 200"

record backoff_strategy =
  initial_delay :: rat
  backoff_factor :: rat

record hedging_strategy =
  hedging_delay :: rat

text \<open>
  \<open>window_size\<close> is the \<open>maxlen\<close> of a deque; a negative \<open>maxlen\<close> makes the
  constructor of \<open>ManagedSender\<close> raise, so every constructed sender has a natural number.
\<close>

record circuit_breaker_strategy =
  window_size :: nat
  failure_threshold :: rat
  recovery_timeout :: rat

datatype extra =
    NoExtra
  | Backoff backoff_strategy
  | Hedging hedging_strategy
  | CircuitBreaker circuit_breaker_strategy

record resilience_strategy =
  max_retries :: int
  latency_budget :: rat
  fast_errors :: "status list"
  extra_strategy :: extra

datatype exhausted_reason =
    MAX_RETRIES_EXCEEDED
  | LATENCY_BUDGET_EXHAUSTED
  | NON_RETRYABLE_ERROR
  | CIRCUIT_BREAKER_OPEN

text \<open>
  Everything a call can raise. \<open>AttributeError\<close> is what reading \<open>initial_delay\<close> or
  \<open>hedging_delay\<close> off an \<open>extra_strategy\<close> of another kind raises; \<open>OverflowError\<close> is
  what \<open>factor ** n\<close> raises when the power is beyond the doubles; \<open>IndexError\<close>,
  \<open>StopIteration\<close> and \<open>KeyError\<close> belong to an empty sender list, which the
  constructors exclude (\<open>senders[0]\<close>), and are kept so that every branch is written out.
\<close>

datatype exn =
    ResilienceStrategyExhausted exhausted_reason
  | AttributeError
  | IndexError
  | StopIteration
  | KeyError
  | OverflowError

section \<open>ManagedSender (resilience/multi\_client.py)\<close>

definition datetime_min :: rat where
  "datetime_min = 0"

text \<open>
  \<open>_recover_at\<close> is typed \<open>datetime\<close>, starts at \<open>datetime.min\<close> and is only ever
  assigned a \<open>datetime\<close>, so it is a point in time here and the \<open>is None\<close> branch of
  \<open>recovery_time\<close> has no state that reaches it.
\<close>

record 'ep managed_sender =
  cb_strategy :: circuit_breaker_strategy
  last_results :: "bool list"
  recover_at :: rat
  managed :: 'ep

definition ManagedSender_init :: "circuit_breaker_strategy \<Rightarrow> 'ep \<Rightarrow> 'ep managed_sender" where
  "ManagedSender_init strategy ep =
     \<lparr>cb_strategy = strategy, last_results = [], recover_at = datetime_min, managed = ep\<rparr>"

text \<open>
  \<open>deque.append\<close> on a deque with \<open>maxlen\<close>: the new entry goes to the right and the
  deque keeps its newest \<open>maxlen\<close> entries (none at all when \<open>maxlen\<close> is 0).
\<close>

definition deque_append :: "nat \<Rightarrow> 'a list \<Rightarrow> 'a \<Rightarrow> 'a list" where
  "deque_append maxlen d x = (let d' = d @ [x] in drop (length d' - maxlen) d')"

definition failure_rate :: "'ep managed_sender \<Rightarrow> rat" where
  "failure_rate m =
     (if last_results m = [] then 0
      else let failures = sum_list (map (\<lambda>result. 1) (filter (\<lambda>result. \<not> result) (last_results m)))
           in of_nat failures / of_nat (length (last_results m)))"

definition record_success :: "'ep managed_sender \<Rightarrow> 'ep managed_sender" where
  "record_success m =
     m\<lparr>last_results := deque_append (window_size (cb_strategy m)) (last_results m) True\<rparr>"

definition record_failure :: "'ep managed_sender \<Rightarrow> rat \<Rightarrow> 'ep managed_sender" where
  "record_failure m now =
     (let m1 = m\<lparr>last_results := deque_append (window_size (cb_strategy m)) (last_results m) False\<rparr>;
          rate = failure_rate m1
      in if rate \<ge> failure_threshold (cb_strategy m1)
         then m1\<lparr>recover_at := now + recovery_timeout (cb_strategy m1)\<rparr>
         else m1)"

definition recovery_time :: "'ep managed_sender \<Rightarrow> rat \<Rightarrow> rat" where
  "recovery_time m now = recover_at m - now"

definition is_circuit_open :: "'ep managed_sender \<Rightarrow> rat \<Rightarrow> bool" where
  "is_circuit_open m now = (now < recover_at m)"

text \<open>
  A sender's life: it is constructed and then records outcomes, a success, or a failure at
  some time.
\<close>

datatype recording = Success | Failure rat

fun record_outcome :: "'ep managed_sender \<Rightarrow> recording \<Rightarrow> 'ep managed_sender" where
  "record_outcome m Success = record_success m"
| "record_outcome m (Failure now) = record_failure m now"

fun entry :: "recording \<Rightarrow> bool" where
  "entry Success = True"
| "entry (Failure now) = False"

definition recorded :: "circuit_breaker_strategy \<Rightarrow> 'ep \<Rightarrow> recording list \<Rightarrow> 'ep managed_sender" where
  "recorded strategy ep rs = foldl record_outcome (ManagedSender_init strategy ep) rs"

section \<open>The world around a client\<close>

text \<open>
  A double that may have overflowed: \<open>x * y\<close> on doubles never raises, it gives an
  infinity.
\<close>

datatype float = Finite rat | PlusInfinity | MinusInfinity

text \<open>
  What a run does to the outside is logged: every \<open>sender.send(payload)\<close> as \<open>Send\<close>
  and every \<open>self._wait(delay)\<close> as \<open>Wait\<close>.
\<close>

datatype 'ep event = Send 'ep | Wait float

fun is_send :: "'ep event \<Rightarrow> bool" where
  "is_send (Send ep) = True"
| "is_send (Wait delay) = False"

definition sends :: "'ep event list \<Rightarrow> nat" where
  "sends es = length (filter is_send es)"

fun waits :: "'ep event list \<Rightarrow> float list" where
  "waits [] = []"
| "waits (Send ep # es) = waits es"
| "waits (Wait delay # es) = delay # waits es"

text \<open>
  Everything the code takes from outside, as the parameters of a run.
  \<^item> \<open>transport\<close> is \<open>ISender.send\<close>: the task started by the \<open>k\<close>-th send of the run, to
    endpoint \<open>ep\<close>, finishes with a status after a latency. A timer that fires at the same
    instant as the task would finish wins: a task is in time when its latency is strictly
    below the timeout.
  \<^item> \<open>now_jitter\<close> is the time that has passed, since the last send or wait came back, at
    the \<open>k\<close>-th call of \<open>datetime.now()\<close> of the client's life.
  \<^item> \<open>first_done\<close> picks the task that iteration over the set \<open>done\<close> of
    \<open>asyncio.wait\<close> yields first.
  \<^item> \<open>seconds_rounded\<close>, \<open>libm_pow\<close> and \<open>round_double\<close> are the double arithmetic:
    the rounding of \<open>timedelta.total_seconds()\<close>, the C function \<open>pow\<close> behind
    \<open>factor ** n\<close>, with \<open>None\<close> for a result out of range, where Python raises
    \<open>OverflowError\<close>, and rounding to the nearest double, to an infinity out of range.
\<close>

record ('ep, 'p) env =
  transport :: "'ep \<Rightarrow> 'p \<Rightarrow> nat \<Rightarrow> status \<times> rat"
  now_jitter :: "nat \<Rightarrow> rat"
  first_done :: "(status \<times> rat) list \<Rightarrow> nat"
  seconds_rounded :: "rat \<Rightarrow> rat"
  libm_pow :: "rat \<Rightarrow> nat \<Rightarrow> rat option"
  round_double :: "rat \<Rightarrow> float"

text \<open>
  The three double operations of \<open>_execute_backoff\<close>. Zero is a double, so a zero
  \<open>timedelta\<close> has zero seconds and a product of doubles that is zero is the double zero;
  \<open>x ** 0\<close> is \<open>1.0\<close> without a call of \<open>pow\<close>.
\<close>

definition total_seconds :: "('ep, 'p) env \<Rightarrow> rat \<Rightarrow> rat" where
  "total_seconds env d = (if d = 0 then 0 else seconds_rounded env d)"

definition float_pow :: "('ep, 'p) env \<Rightarrow> rat \<Rightarrow> nat \<Rightarrow> exn + rat" where
  "float_pow env x n =
     (if n = 0 then Inr 1
      else case libm_pow env x n of None \<Rightarrow> Inl OverflowError | Some y \<Rightarrow> Inr y)"

definition float_mul :: "('ep, 'p) env \<Rightarrow> rat \<Rightarrow> rat \<Rightarrow> float" where
  "float_mul env x y = (if x * y = 0 then Finite 0 else round_double env (x * y))"

text \<open>
  A world to run the model in: the clock does not move between a send and the calls of
  \<open>datetime.now()\<close> after it, the first task of the task list is the first of \<open>done\<close>,
  and the double operations are the exact ones within the range of the doubles. It is the
  double arithmetic wherever the exact result is a double.
\<close>

definition exact_pow :: "rat \<Rightarrow> nat \<Rightarrow> rat option" where
  "exact_pow x n = (if \<bar>x ^ n\<bar> < 2 ^ 1024 then Some (x ^ n) else None)"

definition exact_round :: "rat \<Rightarrow> float" where
  "exact_round x =
     (if 2 ^ 1024 \<le> x then PlusInfinity
      else if x \<le> - (2 ^ 1024) then MinusInfinity
      else Finite x)"

definition still_world :: "('ep \<Rightarrow> 'p \<Rightarrow> nat \<Rightarrow> status \<times> rat) \<Rightarrow> ('ep, 'p) env" where
  "still_world tr =
     \<lparr>transport = tr, now_jitter = (\<lambda>k. 0), first_done = (\<lambda>tasks. 0),
      seconds_rounded = (\<lambda>d. d), libm_pow = exact_pow, round_double = exact_round\<rparr>"

section \<open>Client state\<close>

text \<open>
  The attributes of a client other than the two counters of \<open>Client.request\<close>, with the
  clock, the number of calls of \<open>datetime.now()\<close> so far and the log. \<open>senders_cycle\<close> is
  the position of \<open>itertools.cycle(senders)\<close>.
\<close>

record 'ep client =
  sender :: 'ep
  senders :: "'ep list"
  senders_cycle :: nat
  managed_senders :: "('ep \<times> 'ep managed_sender) list"
  clock :: rat
  now_calls :: nat
  calls :: "'ep event list"

text \<open>\<open>_current_attempt\<close> starts at 0 and is only ever incremented.\<close>

record counters =
  current_attempt :: nat
  time_spent :: rat

definition counters_init :: counters where
  "counters_init = \<lparr>current_attempt = 0, time_spent = 0\<rparr>"

text \<open>
  What \<open>asyncio.wait_for(self._make_request(payload), timeout)\<close> gives: a status and the
  time it took, a \<open>TimeoutError\<close>, or an exception raised inside.
\<close>

datatype attempt = Returned status rat | TimedOut | Raised exn

datatype client_class =
    Client
  | BackoffClient
  | MultiClient
  | HedgingMultiClient
  | CircuitBreakerMultiClient

text \<open>A call of \<open>datetime.now()\<close>.\<close>

definition datetime_now :: "('ep, 'p) env \<Rightarrow> 'ep client \<Rightarrow> rat \<times> 'ep client" where
  "datetime_now env s =
     (clock s + now_jitter env (now_calls s), s\<lparr>now_calls := Suc (now_calls s)\<rparr>)"

subsection \<open>Constructors\<close>

definition Client_init :: "'ep \<Rightarrow> rat \<Rightarrow> 'ep client" where
  "Client_init ep t =
     \<lparr>sender = ep, senders = [], senders_cycle = 0, managed_senders = [], clock = t,
      now_calls = 0, calls = []\<rparr>"

definition MultiClient_init :: "'ep list \<Rightarrow> rat \<Rightarrow> exn + 'ep client" where
  "MultiClient_init eps t =
     (case eps of
        [] \<Rightarrow> Inl IndexError
      | ep # rest \<Rightarrow>
          Inr \<lparr>sender = ep, senders = eps, senders_cycle = 0, managed_senders = [],
               clock = t, now_calls = 0, calls = []\<rparr>)"

text \<open>The keys of \<open>{sender: ... for sender in senders}\<close>: each sender once, at its first place.\<close>

definition dict_keys :: "'a list \<Rightarrow> 'a list" where
  "dict_keys xs = foldl (\<lambda>acc x. if x \<in> set acc then acc else acc @ [x]) [] xs"

definition CircuitBreakerMultiClient_init ::
  "resilience_strategy \<Rightarrow> 'ep list \<Rightarrow> rat \<Rightarrow> exn + 'ep client" where
  "CircuitBreakerMultiClient_init strategy eps t =
     (case eps of
        [] \<Rightarrow> Inl IndexError
      | ep # rest \<Rightarrow>
          (case extra_strategy strategy of
             CircuitBreaker cb \<Rightarrow>
               Inr \<lparr>sender = ep, senders = eps, senders_cycle = 0,
                    managed_senders = map (\<lambda>x. (x, ManagedSender_init cb x)) (dict_keys eps),
                    clock = t, now_calls = 0, calls = []\<rparr>
           | _ \<Rightarrow> Inl AttributeError))"

subsection \<open>\_select\_sender\<close>

text \<open>
  The keys of \<open>CircuitBreakerMultiClient._select_sender\<close>, computed sender by sender in the
  order of the dictionary: \<open>is_circuit_open\<close> and \<open>recovery_time\<close> call
  \<open>datetime.now()\<close> each, so every key has two readings of the clock of its own. Python
  orders tuples lexicographically and \<open>False < True\<close>, as the product order and \<open>bool\<close> do
  here.
\<close>

fun health_keys ::
  "('ep, 'p) env \<Rightarrow> 'ep managed_sender list \<Rightarrow> 'ep client
     \<Rightarrow> (bool \<times> rat \<times> rat) list \<times> 'ep client" where
  "health_keys env [] s = ([], s)"
| "health_keys env (m # ms) s =
     (let (t1, s1) = datetime_now env s;
          (t2, s2) = datetime_now env s1;
          (keys, s3) = health_keys env ms s2
      in ((\<not> is_circuit_open m t1, - failure_rate m, recovery_time m t2) # keys, s3))"

definition next_sender :: "'ep client \<Rightarrow> exn + ('ep \<times> 'ep client)" where
  "next_sender s =
     (if senders s = [] then Inl StopIteration
      else let ep = senders s ! (senders_cycle s mod length (senders s))
           in Inr (ep, s\<lparr>sender := ep, senders_cycle := Suc (senders_cycle s)\<rparr>))"

text \<open>\<open>sorted\<close> is stable, as \<open>sort_key\<close> is; the sender taken is the last of the sorted list.\<close>

fun select_sender ::
  "client_class \<Rightarrow> ('ep, 'p) env \<Rightarrow> 'ep client \<Rightarrow> exn + ('ep \<times> 'ep client)" where
  "select_sender Client env s = Inr (sender s, s)"
| "select_sender BackoffClient env s = Inr (sender s, s)"
| "select_sender MultiClient env s = next_sender s"
| "select_sender HedgingMultiClient env s = next_sender s"
| "select_sender CircuitBreakerMultiClient env s =
     (let (keys, s1) = health_keys env (map snd (managed_senders s)) s
      in case map snd (sort_key fst (zip keys (map snd (managed_senders s)))) of
           [] \<Rightarrow> Inl IndexError
         | m # ms \<Rightarrow> let ep = managed (last (m # ms)) in Inr (ep, s1\<lparr>sender := ep\<rparr>))"

subsection \<open>\_make\_request\<close>

text \<open>\<open>task = sender.send(payload); result = await task\<close>, under a timeout.\<close>

definition send_await ::
  "('ep, 'p) env \<Rightarrow> 'p \<Rightarrow> rat \<Rightarrow> 'ep \<Rightarrow> 'ep client \<Rightarrow> attempt \<times> 'ep client" where
  "send_await env payload timeout ep s =
     (let (result, latency) = transport env ep payload (sends (calls s));
          s1 = s\<lparr>calls := calls s @ [Send ep]\<rparr>
      in if latency < timeout
         then (Returned result latency, s1\<lparr>clock := clock s1 + latency\<rparr>)
         else (TimedOut, s1\<lparr>clock := clock s1 + timeout\<rparr>))"

text \<open>\<open>Client._make_request\<close>; the class decides which \<open>_select_sender\<close> runs.\<close>

definition Client_make_request ::
  "client_class \<Rightarrow> ('ep, 'p) env \<Rightarrow> 'p \<Rightarrow> rat \<Rightarrow> 'ep client \<Rightarrow> attempt \<times> 'ep client" where
  "Client_make_request cls env payload timeout s =
     (case select_sender cls env s of
        Inl e \<Rightarrow> (Raised e, s)
      | Inr (ep, s1) \<Rightarrow> send_await env payload timeout ep s1)"

text \<open>
  \<open>BackoffClient._execute_backoff\<close> computes the delay handed to \<open>_wait\<close>:
  \<open>initial.total_seconds() * (factor ** (self._current_attempt - 1))\<close>, in doubles. It is
  called only when \<open>_current_attempt > 0\<close>, where the exponent is a natural number.
\<close>

definition execute_backoff :: "('ep, 'p) env \<Rightarrow> resilience_strategy \<Rightarrow> nat \<Rightarrow> exn + float" where
  "execute_backoff env strategy attempt_no =
     (case extra_strategy strategy of
        Backoff b \<Rightarrow>
          (case float_pow env (backoff_factor b) (attempt_no - 1) of
             Inl e \<Rightarrow> Inl e
           | Inr pw \<Rightarrow> Inr (float_mul env (total_seconds env (initial_delay b)) pw))
      | _ \<Rightarrow> Inl AttributeError)"

text \<open>
  How long \<open>asyncio.sleep(delay)\<close> takes: a delay that is not positive returns at once, an
  infinite one never.
\<close>

fun sleep_time :: "float \<Rightarrow> rat option" where
  "sleep_time (Finite delay) = Some (max 0 delay)"
| "sleep_time PlusInfinity = None"
| "sleep_time MinusInfinity = Some 0"

definition BackoffClient_make_request ::
  "resilience_strategy \<Rightarrow> ('ep, 'p) env \<Rightarrow> 'p \<Rightarrow> nat \<Rightarrow> rat \<Rightarrow> 'ep client
     \<Rightarrow> attempt \<times> 'ep client" where
  "BackoffClient_make_request strategy env payload attempt_no timeout s =
     (if attempt_no > 0 then
        (case execute_backoff env strategy attempt_no of
           Inl e \<Rightarrow> (Raised e, s)
         | Inr delay \<Rightarrow>
             let s1 = s\<lparr>calls := calls s @ [Wait delay]\<rparr>
             in (case sleep_time delay of
                   None \<Rightarrow> (TimedOut, s1\<lparr>clock := clock s1 + timeout\<rparr>)
                 | Some slept \<Rightarrow>
                     if slept < timeout then
                       (case Client_make_request BackoffClient env payload (timeout - slept)
                               (s1\<lparr>clock := clock s1 + slept\<rparr>) of
                          (Returned result latency, s2) \<Rightarrow> (Returned result (slept + latency), s2)
                        | (TimedOut, s2) \<Rightarrow> (TimedOut, s2)
                        | (Raised e, s2) \<Rightarrow> (Raised e, s2))
                     else (TimedOut, s1\<lparr>clock := clock s1 + timeout\<rparr>)))
      else Client_make_request BackoffClient env payload timeout s)"

text \<open>
  \<open>asyncio.wait(tasks, return_when=FIRST_COMPLETED)\<close> followed by the return of the first
  task that iteration over \<open>done\<close> yields. \<open>done\<close> holds the tasks that finish first, all
  at the same time; which of them comes first is the world's choice.
\<close>

definition first_completed ::
  "('ep, 'p) env \<Rightarrow> status \<times> rat \<Rightarrow> (status \<times> rat) list \<Rightarrow> status \<times> rat" where
  "first_completed env main_task others =
     (let earliest = foldl min (snd main_task) (map snd others);
          done = filter (\<lambda>task. snd task = earliest) (main_task # others)
      in case done of
           [] \<Rightarrow> main_task
         | task # rest \<Rightarrow> done ! (first_done env done mod length done))"

text \<open>
  \<open>HedgingMultiClient._make_request\<close>. The main task is started before \<open>hedging_delay\<close>
  is read. When the main task is not done within the delay, the other senders are called at
  that moment, unless the timeout of \<open>Client.request\<close> has fired by then.
\<close>

definition HedgingMultiClient_make_request ::
  "resilience_strategy \<Rightarrow> ('ep, 'p) env \<Rightarrow> 'p \<Rightarrow> rat \<Rightarrow> 'ep client
     \<Rightarrow> attempt \<times> 'ep client" where
  "HedgingMultiClient_make_request strategy env payload timeout s =
     (case select_sender HedgingMultiClient env s of
        Inl e \<Rightarrow> (Raised e, s)
      | Inr (main_sender, s1) \<Rightarrow>
          let main_task = transport env main_sender payload (sends (calls s1));
              s2 = s1\<lparr>calls := calls s1 @ [Send main_sender]\<rparr>
          in (case extra_strategy strategy of
                Hedging params \<Rightarrow>
                  if snd main_task < hedging_delay params then
                    (if snd main_task < timeout
                     then (Returned (fst main_task) (snd main_task),
                           s2\<lparr>clock := clock s2 + snd main_task\<rparr>)
                     else (TimedOut, s2\<lparr>clock := clock s2 + timeout\<rparr>))
                  else
                    let fan_out = max 0 (hedging_delay params)
                    in if fan_out < timeout then
                         let other_senders = filter (\<lambda>ep. ep \<noteq> main_sender) (senders s2);
                             others = map (\<lambda>(k, ep). transport env ep payload k)
                                        (enumerate (sends (calls s2)) other_senders);
                             s3 = s2\<lparr>calls := calls s2 @ map Send other_senders\<rparr>;
                             winner = first_completed env main_task
                                        (map (\<lambda>(result, latency). (result, fan_out + latency)) others)
                         in if snd winner < timeout
                            then (Returned (fst winner) (snd winner),
                                  s3\<lparr>clock := clock s3 + snd winner\<rparr>)
                            else (TimedOut, s3\<lparr>clock := clock s3 + timeout\<rparr>)
                       else (TimedOut, s2\<lparr>clock := clock s2 + timeout\<rparr>)
              | _ \<Rightarrow> (Raised AttributeError, s2)))"

text \<open>\<open>self._managed_senders[sender]\<close> is an object; recording on it changes the entry.\<close>

definition store ::
  "'ep \<Rightarrow> 'ep managed_sender \<Rightarrow> ('ep \<times> 'ep managed_sender) list
     \<Rightarrow> ('ep \<times> 'ep managed_sender) list" where
  "store ep m ms = map (\<lambda>(k, v). if k = ep then (k, m) else (k, v)) ms"

text \<open>
  \<open>CircuitBreakerMultiClient._make_request\<close>. It selects a sender and looks at the circuit
  of that one; \<open>super()._make_request\<close> then selects again, and sends to the sender of
  its own selection. The outcome is recorded on the sender of the first selection when the
  send has returned; a send cut off by the timeout records nothing.
\<close>

definition CircuitBreakerMultiClient_make_request ::
  "('ep, 'p) env \<Rightarrow> 'p \<Rightarrow> rat \<Rightarrow> 'ep client \<Rightarrow> attempt \<times> 'ep client" where
  "CircuitBreakerMultiClient_make_request env payload timeout s =
     (case select_sender CircuitBreakerMultiClient env s of
        Inl e \<Rightarrow> (Raised e, s)
      | Inr (ep, s1) \<Rightarrow>
          (case map_of (managed_senders s1) ep of
             None \<Rightarrow> (Raised KeyError, s1)
           | Some m \<Rightarrow>
               let (t, s2) = datetime_now env s1
               in if is_circuit_open m t
                  then (Raised (ResilienceStrategyExhausted CIRCUIT_BREAKER_OPEN), s2)
                  else
                    (case Client_make_request CircuitBreakerMultiClient env payload timeout s2 of
                       (Returned result latency, s3) \<Rightarrow>
                         if result = OK
                         then (Returned result latency,
                               s3\<lparr>managed_senders := store ep (record_success m) (managed_senders s3)\<rparr>)
                         else
                           let (t', s4) = datetime_now env s3
                           in (Returned result latency,
                               s4\<lparr>managed_senders :=
                                     store ep (record_failure m t') (managed_senders s4)\<rparr>)
                     | (TimedOut, s3) \<Rightarrow> (TimedOut, s3)
                     | (Raised e, s3) \<Rightarrow> (Raised e, s3))))"

text \<open>The \<open>_make_request\<close> of each class.\<close>

fun make_request ::
  "client_class \<Rightarrow> resilience_strategy \<Rightarrow> ('ep, 'p) env \<Rightarrow> 'p \<Rightarrow> nat \<Rightarrow> rat
     \<Rightarrow> 'ep client \<Rightarrow> attempt \<times> 'ep client" where
  "make_request Client strategy env payload attempt_no timeout s =
     Client_make_request Client env payload timeout s"
| "make_request MultiClient strategy env payload attempt_no timeout s =
     Client_make_request MultiClient env payload timeout s"
| "make_request BackoffClient strategy env payload attempt_no timeout s =
     BackoffClient_make_request strategy env payload attempt_no timeout s"
| "make_request HedgingMultiClient strategy env payload attempt_no timeout s =
     HedgingMultiClient_make_request strategy env payload timeout s"
| "make_request CircuitBreakerMultiClient strategy env payload attempt_no timeout s =
     CircuitBreakerMultiClient_make_request env payload timeout s"

subsection \<open>Client.request\<close>

text \<open>
  \<open>Client.request\<close>, with \<open>_make_request\<close> as the overridden method \<open>mk\<close>, which reads
  \<open>_current_attempt\<close> and never writes a counter. The result comes with the counters and
  the client as the call leaves them, and with the outcome of each \<open>wait_for\<close> in order.
  The time added to \<open>_time_spent\<close> is the time the attempt took.
\<close>

function request_loop ::
  "(nat \<Rightarrow> rat \<Rightarrow> 's \<Rightarrow> attempt \<times> 's) \<Rightarrow> resilience_strategy \<Rightarrow> counters \<times> 's
     \<Rightarrow> (exn + status) \<times> (counters \<times> 's) \<times> attempt list" where
  "request_loop mk strategy (c, s) =
     (if int (current_attempt c) \<ge> max_retries strategy
      then (Inl (ResilienceStrategyExhausted MAX_RETRIES_EXCEEDED), (c, s), [])
      else
        let remaining_budget = latency_budget strategy - time_spent c
        in if remaining_budget \<le> 0
           then (Inl (ResilienceStrategyExhausted LATENCY_BUDGET_EXHAUSTED), (c, s), [])
           else
             (case mk (current_attempt c) remaining_budget s of
                (TimedOut, s') \<Rightarrow>
                  (Inl (ResilienceStrategyExhausted LATENCY_BUDGET_EXHAUSTED), (c, s'), [TimedOut])
              | (Raised e, s') \<Rightarrow> (Inl e, (c, s'), [Raised e])
              | (Returned result elapsed, s') \<Rightarrow>
                  if result \<in> set (fast_errors strategy)
                  then (Inl (ResilienceStrategyExhausted NON_RETRYABLE_ERROR), (c, s'),
                        [Returned result elapsed])
                  else if result = OK
                  then (Inr result, (c, s'), [Returned result elapsed])
                  else
                    (case request_loop mk strategy
                            (c\<lparr>time_spent := time_spent c + elapsed,
                               current_attempt := Suc (current_attempt c)\<rparr>, s') of
                       (r, cs, outcomes) \<Rightarrow> (r, cs, Returned result elapsed # outcomes))))"
  by pat_completeness auto
termination
  by (relation "measure (\<lambda>(mk, strategy, (c, s)). nat (max_retries strategy - int (current_attempt c)))")
     auto

definition request ::
  "client_class \<Rightarrow> resilience_strategy \<Rightarrow> ('ep, 'p) env \<Rightarrow> 'p \<Rightarrow> counters \<times> 'ep client
     \<Rightarrow> (exn + status) \<times> (counters \<times> 'ep client) \<times> attempt list" where
  "request cls strategy env payload cs =
     request_loop (make_request cls strategy env payload) strategy cs"

subsection \<open>Reading a run\<close>

text \<open>
  What \<open>Client.request\<close> does with one outcome: it retries after a status that is neither
  in \<open>fast_errors\<close> nor \<open>OK\<close>, and ends the call on anything else.
\<close>

fun is_success :: "attempt \<Rightarrow> bool" where
  "is_success (Returned result elapsed) = (result = OK)"
| "is_success TimedOut = False"
| "is_success (Raised e) = False"

fun is_fast_error :: "resilience_strategy \<Rightarrow> attempt \<Rightarrow> bool" where
  "is_fast_error strategy (Returned result elapsed) = (result \<in> set (fast_errors strategy))"
| "is_fast_error strategy TimedOut = False"
| "is_fast_error strategy (Raised e) = False"

fun retried :: "resilience_strategy \<Rightarrow> attempt \<Rightarrow> bool" where
  "retried strategy (Returned result elapsed) =
     (result \<notin> set (fast_errors strategy) \<and> result \<noteq> OK)"
| "retried strategy TimedOut = False"
| "retried strategy (Raised e) = False"

fun elapsed_of :: "attempt \<Rightarrow> rat" where
  "elapsed_of (Returned result elapsed) = elapsed"
| "elapsed_of TimedOut = 0"
| "elapsed_of (Raised e) = 0"

fun verdict :: "resilience_strategy \<Rightarrow> attempt \<Rightarrow> exn + status" where
  "verdict strategy (Returned result elapsed) =
     (if result \<in> set (fast_errors strategy)
      then Inl (ResilienceStrategyExhausted NON_RETRYABLE_ERROR) else Inr result)"
| "verdict strategy TimedOut = Inl (ResilienceStrategyExhausted LATENCY_BUDGET_EXHAUSTED)"
| "verdict strategy (Raised e) = Inl e"

text \<open>The most sends one attempt of a class can make.\<close>

definition calls_per_attempt :: "client_class \<Rightarrow> 'ep client \<Rightarrow> nat" where
  "calls_per_attempt cls s = (if cls = HedgingMultiClient then length (senders s) else 1)"

text \<open>The wait an attempt of the backoff client logs: none when the delay cannot be computed.\<close>

definition wait_of :: "('ep, 'p) env \<Rightarrow> resilience_strategy \<Rightarrow> nat \<Rightarrow> float list" where
  "wait_of env strategy attempt_no =
     (case execute_backoff env strategy attempt_no of Inl e \<Rightarrow> [] | Inr delay \<Rightarrow> [delay])"

section \<open>The sliding window\<close>

lemma length_deque_append: "length (deque_append w d x) = min (Suc (length d)) w"
  by (simp add: deque_append_def Let_def)

lemma deque_append_room: "length d < w \<Longrightarrow> deque_append w d x = d @ [x]"
  by (simp add: deque_append_def Let_def)

lemma deque_append_full:
  assumes "length d = w" and "0 < w"
  shows "deque_append w d x = tl d @ [x]"
proof -
  from assms have "d \<noteq> []" by auto
  then obtain y ys where d: "d = y # ys" by (cases d) auto
  with assms show ?thesis by (simp add: deque_append_def Let_def)
qed

lemma cb_strategy_record_outcome [simp]: "cb_strategy (record_outcome m r) = cb_strategy m"
  by (cases r) (simp_all add: record_success_def record_failure_def Let_def)

lemma length_record_outcome:
  "length (last_results (record_outcome m r)) \<le> window_size (cb_strategy m)"
  by (cases r) (simp_all add: record_success_def record_failure_def Let_def length_deque_append)

lemma cb_strategy_foldl [simp]: "cb_strategy (foldl record_outcome m rs) = cb_strategy m"
  by (induction rs arbitrary: m) simp_all

lemma length_foldl_record:
  "length (last_results m) \<le> window_size (cb_strategy m) \<Longrightarrow>
   length (last_results (foldl record_outcome m rs)) \<le> window_size (cb_strategy m)"
proof (induction rs arbitrary: m)
  case Nil
  then show ?case by simp
next
  case (Cons r rs)
  have "length (last_results (record_outcome m r)) \<le> window_size (cb_strategy (record_outcome m r))"
    using length_record_outcome [of m r] by simp
  from Cons.IH [OF this] show ?case by simp
qed

lemma failures_count: "sum_list (map (\<lambda>result. Suc 0) (filter Not bs)) = count_list bs False"
  by (induction bs) auto

lemma length_recorded: "length (last_results (recorded strategy ep rs)) \<le> window_size strategy"
proof -
  have "length (last_results (ManagedSender_init strategy ep))
          \<le> window_size (cb_strategy (ManagedSender_init strategy ep))"
    by (simp add: ManagedSender_init_def)
  from length_foldl_record [OF this, of rs] show ?thesis
    by (simp add: recorded_def ManagedSender_init_def)
qed

lemma cb_strategy_recorded [simp]: "cb_strategy (recorded strategy ep rs) = strategy"
  by (simp add: recorded_def ManagedSender_init_def)

lemma deque_append_within:
  assumes "length d \<le> w"
  shows "deque_append w d x = (if length d < w then d @ [x] else drop 1 (d @ [x]))"
proof (cases "length d < w")
  case True
  then show ?thesis by (simp add: deque_append_room)
next
  case False
  with assms have "length d = w" by simp
  then show ?thesis by (simp add: deque_append_def Let_def)
qed

lemma last_results_record_success:
  "last_results (record_success m) = deque_append (window_size (cb_strategy m)) (last_results m) True"
  by (simp add: record_success_def)

lemma last_results_record_failure:
  "last_results (record_failure m t) = deque_append (window_size (cb_strategy m)) (last_results m) False"
  by (simp add: record_failure_def Let_def)

lemma failure_rate_last_results:
  "last_results m = last_results m' \<Longrightarrow> failure_rate m = failure_rate m'"
  by (simp add: failure_rate_def)

lemma recover_at_record_failure:
  "recover_at (record_failure m t) =
     (if failure_rate (record_failure m t) \<ge> failure_threshold (cb_strategy m)
      then t + recovery_timeout (cb_strategy m) else recover_at m)"
proof -
  let ?m1 = "m\<lparr>last_results := deque_append (window_size (cb_strategy m)) (last_results m) False\<rparr>"
  have "failure_rate (record_failure m t) = failure_rate ?m1"
    by (rule failure_rate_last_results) (simp add: last_results_record_failure)
  then show ?thesis by (simp add: record_failure_def Let_def)
qed

section \<open>Results on ManagedSender\<close>

text \<open>
  C6. On every state a sender can be in, \<open>record_failure\<close> appends \<open>False\<close> to the history,
  dropping the oldest entry when the window was full, and sets \<open>_recover_at\<close> to
  \<open>now + recovery_timeout\<close> if the failure rate after the append is at least
  \<open>failure_threshold\<close>, and leaves it as it was otherwise; \<open>record_success\<close> appends
  \<open>True\<close> in the same way and leaves \<open>_recover_at\<close> unchanged.
\<close>

theorem record_appends_and_opens:
  "last_results (record_failure (recorded strategy ep rs) t) =
     (if length (last_results (recorded strategy ep rs)) < window_size strategy
      then last_results (recorded strategy ep rs) @ [False]
      else drop 1 (last_results (recorded strategy ep rs) @ [False]))
   \<and> recover_at (record_failure (recorded strategy ep rs) t) =
     (if failure_rate (record_failure (recorded strategy ep rs) t) \<ge> failure_threshold strategy
      then t + recovery_timeout strategy
      else recover_at (recorded strategy ep rs))
   \<and> last_results (record_success (recorded strategy ep rs)) =
     (if length (last_results (recorded strategy ep rs)) < window_size strategy
      then last_results (recorded strategy ep rs) @ [True]
      else drop 1 (last_results (recorded strategy ep rs) @ [True]))
   \<and> recover_at (record_success (recorded strategy ep rs)) = recover_at (recorded strategy ep rs)"
proof -
  let ?m = "recorded strategy ep rs"
  have len: "length (last_results ?m) \<le> window_size strategy"
    by (rule length_recorded)
  have f: "last_results (record_failure ?m t) =
      (if length (last_results ?m) < window_size strategy
       then last_results ?m @ [False] else drop 1 (last_results ?m @ [False]))"
    using deque_append_within [OF len, of False] by (simp add: last_results_record_failure)
  have s: "last_results (record_success ?m) =
      (if length (last_results ?m) < window_size strategy
       then last_results ?m @ [True] else drop 1 (last_results ?m @ [True]))"
    using deque_append_within [OF len, of True] by (simp add: last_results_record_success)
  have r: "recover_at (record_failure ?m t) =
      (if failure_rate (record_failure ?m t) \<ge> failure_threshold strategy
       then t + recovery_timeout strategy else recover_at ?m)"
    using recover_at_record_failure [of ?m t] by simp
  have u: "recover_at (record_success ?m) = recover_at ?m"
    by (simp add: record_success_def)
  from f r s u show ?thesis by blast
qed

text \<open>
  C7, as the code has it. \<open>recovery_time\<close> is \<open>_recover_at - now\<close> with no clamping at
  zero: it is negative exactly when \<open>now\<close> is past \<open>_recover_at\<close>, and it agrees with
  \<open>max(0, _recover_at - now)\<close> exactly when \<open>now\<close> is not past \<open>_recover_at\<close>. The
  circuit is open exactly when it is positive.
\<close>

theorem recovery_time_unclamped:
  "recovery_time m t = recover_at m - t
   \<and> (recovery_time m t < 0) = (recover_at m < t)
   \<and> (recovery_time m t = max 0 (recover_at m - t)) = (t \<le> recover_at m)
   \<and> is_circuit_open m t = (0 < recovery_time m t)"
  by (auto simp: recovery_time_def is_circuit_open_def max_def)

text \<open>
  C7 as stated fails: a sender whose circuit opened at time 0 for 2 seconds reports, at
  time 5, a recovery time of -3, where \<open>max(0, _recover_at - now)\<close> is 0.
\<close>

theorem recovery_time_negative:
  "recovery_time
     (recorded \<lparr>window_size = 4, failure_threshold = 1 / 2, recovery_timeout = 2\<rparr> (0 :: nat)
        [Failure 0]) 5 = - 3
   \<and> max 0 (recover_at
        (recorded \<lparr>window_size = 4, failure_threshold = 1 / 2, recovery_timeout = 2\<rparr> (0 :: nat)
           [Failure 0]) - 5) = 0"
  by (simp add: recorded_def ManagedSender_init_def record_failure_def deque_append_def
      failure_rate_def recovery_time_def datetime_min_def Let_def)

text \<open>
  C8. After any sequence of recordings on a new sender the history is no longer than
  \<open>window_size\<close>, and a further recording drops the oldest entry when the window is full.
  \<open>failure_rate\<close> is the number of \<open>False\<close> entries over the length of the history, and
  0 on an empty history.
\<close>

theorem history_bounded_failure_rate:
  "length (last_results (recorded strategy ep rs)) \<le> window_size strategy
   \<and> last_results (record_outcome (recorded strategy ep rs) r) =
       (if length (last_results (recorded strategy ep rs)) < window_size strategy
        then last_results (recorded strategy ep rs) @ [entry r]
        else drop 1 (last_results (recorded strategy ep rs) @ [entry r]))
   \<and> failure_rate m =
       (if last_results m = [] then 0
        else of_nat (count_list (last_results m) False) / of_nat (length (last_results m)))"
proof -
  let ?m = "recorded strategy ep rs"
  have len: "length (last_results ?m) \<le> window_size strategy"
    by (rule length_recorded)
  have step: "last_results (record_outcome ?m r) =
       (if length (last_results ?m) < window_size strategy
        then last_results ?m @ [entry r] else drop 1 (last_results ?m @ [entry r]))"
  proof (cases r)
    case Success
    then show ?thesis
      using deque_append_within [OF len, of True] by (simp add: last_results_record_success)
  next
    case (Failure t)
    then show ?thesis
      using deque_append_within [OF len, of False] by (simp add: last_results_record_failure)
  qed
  have rate: "failure_rate m =
       (if last_results m = [] then 0
        else of_nat (count_list (last_results m) False) / of_nat (length (last_results m)))"
    by (simp add: failure_rate_def Let_def failures_count)
  from len step rate show ?thesis by blast
qed

section \<open>Runs of Client.request\<close>

text \<open>
  Induction over a run: one case for each way an attempt can go, the retry with the
  property of the rest of the run at hand.
\<close>

declare request_loop.simps [simp del]

lemma request_loop_run_induct [consumes 1, case_names max_retries budget timed_out raised fast_error ok retry]:
  assumes run: "request_loop mk strategy (c, s) = (res, (c', s'), outcomes)"
    and max_retries: "\<And>c s. max_retries strategy \<le> int (current_attempt c) \<Longrightarrow>
        P c s (Inl (ResilienceStrategyExhausted MAX_RETRIES_EXCEEDED)) c s []"
    and budget: "\<And>c s. int (current_attempt c) < max_retries strategy \<Longrightarrow>
        latency_budget strategy \<le> time_spent c \<Longrightarrow>
        P c s (Inl (ResilienceStrategyExhausted LATENCY_BUDGET_EXHAUSTED)) c s []"
    and timed_out: "\<And>c s s1. int (current_attempt c) < max_retries strategy \<Longrightarrow>
        time_spent c < latency_budget strategy \<Longrightarrow>
        mk (current_attempt c) (latency_budget strategy - time_spent c) s = (TimedOut, s1) \<Longrightarrow>
        P c s (Inl (ResilienceStrategyExhausted LATENCY_BUDGET_EXHAUSTED)) c s1 [TimedOut]"
    and raised: "\<And>c s s1 e. int (current_attempt c) < max_retries strategy \<Longrightarrow>
        time_spent c < latency_budget strategy \<Longrightarrow>
        mk (current_attempt c) (latency_budget strategy - time_spent c) s = (Raised e, s1) \<Longrightarrow>
        P c s (Inl e) c s1 [Raised e]"
    and fast_error: "\<And>c s s1 result elapsed. int (current_attempt c) < max_retries strategy \<Longrightarrow>
        time_spent c < latency_budget strategy \<Longrightarrow>
        mk (current_attempt c) (latency_budget strategy - time_spent c) s = (Returned result elapsed, s1) \<Longrightarrow>
        result \<in> set (fast_errors strategy) \<Longrightarrow>
        P c s (Inl (ResilienceStrategyExhausted NON_RETRYABLE_ERROR)) c s1 [Returned result elapsed]"
    and ok: "\<And>c s s1 elapsed. int (current_attempt c) < max_retries strategy \<Longrightarrow>
        time_spent c < latency_budget strategy \<Longrightarrow>
        mk (current_attempt c) (latency_budget strategy - time_spent c) s = (Returned OK elapsed, s1) \<Longrightarrow>
        OK \<notin> set (fast_errors strategy) \<Longrightarrow>
        P c s (Inr OK) c s1 [Returned OK elapsed]"
    and retry: "\<And>c s s1 result elapsed res c' s' outcomes.
        int (current_attempt c) < max_retries strategy \<Longrightarrow>
        time_spent c < latency_budget strategy \<Longrightarrow>
        mk (current_attempt c) (latency_budget strategy - time_spent c) s = (Returned result elapsed, s1) \<Longrightarrow>
        result \<notin> set (fast_errors strategy) \<Longrightarrow> result \<noteq> OK \<Longrightarrow>
        request_loop mk strategy
          (c\<lparr>time_spent := time_spent c + elapsed, current_attempt := Suc (current_attempt c)\<rparr>, s1)
          = (res, (c', s'), outcomes) \<Longrightarrow>
        P (c\<lparr>time_spent := time_spent c + elapsed, current_attempt := Suc (current_attempt c)\<rparr>) s1
          res c' s' outcomes \<Longrightarrow>
        P c s res c' s' (Returned result elapsed # outcomes)"
  shows "P c s res c' s' outcomes"
  using run
proof (induction "nat (max_retries strategy - int (current_attempt c))"
    arbitrary: c s res outcomes)
  case 0
  then have le: "max_retries strategy \<le> int (current_attempt c)" by simp
  with "0.prems" have "res = Inl (ResilienceStrategyExhausted MAX_RETRIES_EXCEEDED)"
    "c' = c" "s' = s" "outcomes = []"
    by (simp_all add: request_loop.simps)
  with max_retries [OF le] show ?case by simp
next
  case (Suc n)
  then have lt: "int (current_attempt c) < max_retries strategy" by linarith
  let ?rem = "latency_budget strategy - time_spent c"
  show ?case
  proof (cases "?rem \<le> 0")
    case True
    with lt Suc.prems have "res = Inl (ResilienceStrategyExhausted LATENCY_BUDGET_EXHAUSTED)"
      "c' = c" "s' = s" "outcomes = []"
      by (simp_all add: request_loop.simps)
    with budget [OF lt] True show ?thesis by simp
  next
    case False
    then have tm: "time_spent c < latency_budget strategy" by simp
    obtain a s1 where mk: "mk (current_attempt c) ?rem s = (a, s1)" by force
    show ?thesis
    proof (cases a)
      case TimedOut
      with lt False mk Suc.prems
      have "res = Inl (ResilienceStrategyExhausted LATENCY_BUDGET_EXHAUSTED)"
        "c' = c" "s' = s1" "outcomes = [TimedOut]"
        by (simp_all add: request_loop.simps)
      with timed_out [OF lt tm] mk TimedOut show ?thesis by simp
    next
      case (Raised e)
      with lt False mk Suc.prems
      have "res = Inl e" "c' = c" "s' = s1" "outcomes = [Raised e]"
        by (simp_all add: request_loop.simps)
      with raised [OF lt tm] mk Raised show ?thesis by simp
    next
      case (Returned result elapsed)
      note mk' = mk [unfolded Returned]
      show ?thesis
      proof (cases "result \<in> set (fast_errors strategy)")
        case True
        with lt False mk' Suc.prems
        have "res = Inl (ResilienceStrategyExhausted NON_RETRYABLE_ERROR)"
          "c' = c" "s' = s1" "outcomes = [Returned result elapsed]"
          by (simp_all add: request_loop.simps)
        with fast_error [OF lt tm mk' True] show ?thesis by simp
      next
        case nf: False
        show ?thesis
        proof (cases "result = OK")
          case True
          with nf lt False mk' Suc.prems
          have "res = Inr OK" "c' = c" "s' = s1" "outcomes = [Returned OK elapsed]"
            by (simp_all add: request_loop.simps)
          with ok [OF lt tm] mk' True nf show ?thesis by simp
        next
          case nok: False
          let ?c1 = "c\<lparr>time_spent := time_spent c + elapsed, current_attempt := Suc (current_attempt c)\<rparr>"
          obtain r cs1 os where rec: "request_loop mk strategy (?c1, s1) = (r, cs1, os)"
            by (metis prod_cases3)
          with nok nf lt False mk' Suc.prems
          have eqs: "res = r" "cs1 = (c', s')" "outcomes = Returned result elapsed # os"
            by (simp_all add: request_loop.simps)
          from Suc.hyps(2) have n: "n = nat (max_retries strategy - int (current_attempt ?c1))"
            by simp
          from rec eqs have rec': "request_loop mk strategy (?c1, s1) = (res, (c', s'), os)"
            by simp
          from Suc.hyps(1) [OF n rec'] have "P ?c1 s1 res c' s' os" .
          from retry [OF lt tm mk' nf nok rec' this] eqs show ?thesis by simp
        qed
      qed
    qed
  qed
qed

subsection \<open>Facts about every run\<close>


lemma run_counters:
  assumes "request_loop mk strategy (c, s) = (res, (c', s'), outcomes)"
  shows "current_attempt c' = current_attempt c + length (filter (retried strategy) outcomes)
    \<and> time_spent c' = time_spent c + sum_list (map elapsed_of (filter (retried strategy) outcomes))"
  using assms by (induction rule: request_loop_run_induct) auto

text \<open>
  A run is a row of retried attempts, ended either by one of the two checks at the head of
  \<open>request\<close> or by one attempt that is not retried.
\<close>

lemma run_shape:
  assumes "request_loop mk strategy (c, s) = (res, (c', s'), outcomes)"
  shows "(list_all (retried strategy) outcomes
          \<and> res = Inl (ResilienceStrategyExhausted
                (if max_retries strategy \<le> int (current_attempt c')
                 then MAX_RETRIES_EXCEEDED else LATENCY_BUDGET_EXHAUSTED)))
       \<or> (outcomes \<noteq> [] \<and> list_all (retried strategy) (butlast outcomes)
          \<and> \<not> retried strategy (last outcomes) \<and> res = verdict strategy (last outcomes)
          \<and> int (current_attempt c') < max_retries strategy)"
  using assms by (induction rule: request_loop_run_induct) (auto simp: OK_def)

lemma run_raised:
  assumes "request_loop mk strategy (c, s) = (res, (c', s'), outcomes)"
    and "Raised e \<in> set outcomes"
  shows "\<exists>a t s0 s1. mk a t s0 = (Raised e, s1)"
  using assms by (induction rule: request_loop_run_induct) auto

subsection \<open>What one attempt does to the client\<close>

lemma sends_Nil [simp]: "sends [] = 0"
  by (simp add: sends_def)

lemma sends_Cons_Send [simp]: "sends (Send ep # es) = Suc (sends es)"
  by (simp add: sends_def)

lemma sends_Cons_Wait [simp]: "sends (Wait d # es) = sends es"
  by (simp add: sends_def)

lemma sends_append [simp]: "sends (xs @ ys) = sends xs + sends ys"
  by (simp add: sends_def)

lemma sends_map_Send [simp]: "sends (map Send eps) = length eps"
  by (induction eps) simp_all

lemma waits_append [simp]: "waits (xs @ ys) = waits xs @ waits ys"
  by (induction xs rule: waits.induct) simp_all

lemma datetime_now_keeps:
  "datetime_now env s = (t, s1) \<Longrightarrow>
   calls s1 = calls s \<and> senders s1 = senders s \<and> clock s1 = clock s
   \<and> managed_senders s1 = managed_senders s \<and> sender s1 = sender s
   \<and> senders_cycle s1 = senders_cycle s"
  by (auto simp: datetime_now_def)

lemma health_keys_keeps:
  "health_keys env ms s = (keys, s1) \<Longrightarrow>
   calls s1 = calls s \<and> senders s1 = senders s \<and> clock s1 = clock s
   \<and> managed_senders s1 = managed_senders s \<and> sender s1 = sender s
   \<and> senders_cycle s1 = senders_cycle s \<and> length keys = length ms"
proof (induction ms arbitrary: s keys s1)
  case Nil
  then show ?case by simp
next
  case (Cons m ms)
  obtain t1 sa where a: "datetime_now env s = (t1, sa)" by force
  obtain t2 sb where b: "datetime_now env sa = (t2, sb)" by force
  obtain ks sc where c: "health_keys env ms sb = (ks, sc)" by force
  from Cons.prems a b c have e: "s1 = sc" "keys = (\<not> is_circuit_open m t1, - failure_rate m, recovery_time m t2) # ks"
    by simp_all
  from datetime_now_keeps [OF a] datetime_now_keeps [OF b] Cons.IH [OF c] e
  show ?case by simp
qed

lemma select_sender_keeps:
  assumes "select_sender cls env s = Inr (ep, s1)"
  shows "calls s1 = calls s \<and> senders s1 = senders s \<and> clock s1 = clock s
     \<and> managed_senders s1 = managed_senders s \<and> sender s1 = ep"
proof (cases cls)
  case CircuitBreakerMultiClient
  obtain keys s0 where k: "health_keys env (map snd (managed_senders s)) s = (keys, s0)" by force
  from assms CircuitBreakerMultiClient k health_keys_keeps [OF k] show ?thesis
    by (auto simp: Let_def split: list.splits)
qed (use assms in \<open>auto simp: next_sender_def Let_def split: if_splits\<close>)

lemma select_sender_raises:
  "select_sender cls env s = Inl e \<Longrightarrow> e = IndexError \<or> e = StopIteration"
  by (cases cls) (auto simp: next_sender_def Let_def split: if_splits list.splits prod.splits)

lemma send_await_calls:
  "send_await env payload timeout ep s = (a, s1) \<Longrightarrow>
   calls s1 = calls s @ [Send ep] \<and> senders s1 = senders s
   \<and> managed_senders s1 = managed_senders s \<and> sender s1 = sender s
   \<and> (\<forall>e. a \<noteq> Raised e)"
  by (auto simp: send_await_def Let_def split: prod.splits if_splits)

lemma Client_make_request_calls:
  assumes "Client_make_request cls env payload timeout s = (a, s1)"
  shows "(calls s1 = calls s \<or> calls s1 = calls s @ [Send (sender s1)])
     \<and> senders s1 = senders s \<and> managed_senders s1 = managed_senders s
     \<and> (\<forall>e. a = Raised e \<longrightarrow> e = IndexError \<or> e = StopIteration)
     \<and> (\<forall>r e. a = Returned r e \<longrightarrow> calls s1 = calls s @ [Send (sender s1)])"
proof (cases "select_sender cls env s")
  case (Inl e)
  with assms select_sender_raises [OF Inl] show ?thesis
    by (auto simp: Client_make_request_def)
next
  case (Inr p)
  obtain ep s0 where p: "p = (ep, s0)" by force
  from Inr p assms have sa: "send_await env payload timeout ep s0 = (a, s1)"
    by (simp add: Client_make_request_def)
  from select_sender_keeps [OF Inr [unfolded p]] send_await_calls [OF sa]
  show ?thesis by auto
qed

lemma Backoff_send:
  "Client_make_request BackoffClient env payload timeout s
     = send_await env payload timeout (sender s) s"
  by (simp add: Client_make_request_def)

lemma BackoffClient_first_attempt:
  "BackoffClient_make_request strategy env payload 0 timeout s = (a, s1) \<Longrightarrow>
   calls s1 = calls s @ [Send (sender s)]"
  by (auto simp: BackoffClient_make_request_def Backoff_send dest: send_await_calls)

lemma BackoffClient_retry:
  assumes "BackoffClient_make_request strategy env payload attempt_no timeout s = (a, s1)"
    and "0 < attempt_no"
  shows "(case execute_backoff env strategy attempt_no of
            Inl e \<Rightarrow> a = Raised e \<and> s1 = s
          | Inr delay \<Rightarrow>
              (calls s1 = calls s @ [Wait delay] \<and> a = TimedOut)
              \<or> (calls s1 = calls s @ [Wait delay, Send (sender s)] \<and> (\<forall>e. a \<noteq> Raised e)))"
  using assms
  by (auto simp: BackoffClient_make_request_def Backoff_send Let_def
      split: if_splits prod.splits attempt.splits sum.splits option.splits
      dest!: send_await_calls)

lemma execute_backoff_raises:
  "execute_backoff env strategy attempt_no = Inl e \<Longrightarrow> e = AttributeError \<or> e = OverflowError"
  by (auto simp: execute_backoff_def float_pow_def split: extra.splits sum.splits option.splits if_splits)

lemma BackoffClient_effect:
  assumes "BackoffClient_make_request strategy env payload attempt_no timeout s = (a, s1)"
  shows "sends (calls s1) \<le> sends (calls s) + 1 \<and> senders s1 = senders s
     \<and> (\<forall>e. a = Raised e \<longrightarrow> e = AttributeError \<or> e = OverflowError)
     \<and> (\<forall>r e. a = Returned r e \<longrightarrow> sends (calls s1) = sends (calls s) + 1)
     \<and> sends (calls s) \<le> sends (calls s1)"
  using assms
  by (auto simp: BackoffClient_make_request_def Backoff_send Let_def
      split: if_splits prod.splits attempt.splits sum.splits option.splits
      dest!: send_await_calls execute_backoff_raises)

lemma length_others:
  "ep \<in> set eps \<Longrightarrow> Suc (length (filter (\<lambda>x. x \<noteq> ep) eps)) \<le> length eps"
  using length_filter_less [of ep eps "\<lambda>x. x \<noteq> ep"] by simp

lemma next_sender_in:
  "next_sender s = Inr (ep, s1) \<Longrightarrow>
   ep \<in> set (senders s) \<and> senders s1 = senders s \<and> calls s1 = calls s"
  by (auto simp: next_sender_def Let_def split: if_splits)

lemma HedgingMultiClient_effect:
  assumes "HedgingMultiClient_make_request strategy env payload timeout s = (a, s1)"
  shows "sends (calls s1) \<le> sends (calls s) + length (senders s) \<and> senders s1 = senders s
     \<and> (\<forall>e. a = Raised e \<longrightarrow> e = AttributeError \<or> e = StopIteration)
     \<and> (\<forall>r e. a = Returned r e \<longrightarrow> sends (calls s) < sends (calls s1))
     \<and> sends (calls s) \<le> sends (calls s1)"
proof (cases "next_sender s")
  case (Inl e)
  then have "e = StopIteration" by (auto simp: next_sender_def Let_def split: if_splits)
  with Inl assms show ?thesis by (auto simp: HedgingMultiClient_make_request_def)
next
  case (Inr p)
  obtain ep s0 where p: "p = (ep, s0)" by force
  from next_sender_in [OF Inr [unfolded p]]
  have mem: "ep \<in> set (senders s)" and s0: "senders s0 = senders s" "calls s0 = calls s"
    by simp_all
  from length_others [OF mem]
  have len: "Suc (length (filter (\<lambda>x. x \<noteq> ep) (senders s))) \<le> length (senders s)" .
  from mem have pos: "1 \<le> length (senders s)" by (cases "senders s") auto
  from assms Inr p s0 len pos show ?thesis
    by (auto simp: HedgingMultiClient_make_request_def Let_def
        split: extra.splits if_splits)
qed

lemma CircuitBreakerMultiClient_effect:
  assumes "CircuitBreakerMultiClient_make_request env payload timeout s = (a, s1)"
  shows "sends (calls s1) \<le> sends (calls s) + 1 \<and> senders s1 = senders s
     \<and> (\<forall>e. a = Raised e \<longrightarrow> e = IndexError \<or> e = StopIteration \<or> e = KeyError
            \<or> e = ResilienceStrategyExhausted CIRCUIT_BREAKER_OPEN)
     \<and> (\<forall>r e. a = Returned r e \<longrightarrow> sends (calls s1) = sends (calls s) + 1)
     \<and> sends (calls s) \<le> sends (calls s1)"
proof (cases "select_sender CircuitBreakerMultiClient env s")
  case (Inl e)
  with assms select_sender_raises [OF Inl] show ?thesis
    by (auto simp: CircuitBreakerMultiClient_make_request_def)
next
  case (Inr p)
  obtain ep s0 where p: "p = (ep, s0)" by force
  note sel = select_sender_keeps [OF Inr [unfolded p]]
  obtain t sa where dn: "datetime_now env s0 = (t, sa)" by force
  note k1 = datetime_now_keeps [OF dn]
  obtain a2 s2 where cm: "Client_make_request CircuitBreakerMultiClient env payload timeout sa = (a2, s2)"
    by force
  note eff = Client_make_request_calls [OF cm]
  obtain t' sb where dn2: "datetime_now env s2 = (t', sb)" by force
  note k2 = datetime_now_keeps [OF dn2]
  from eff have le: "sends (calls s2) \<le> sends (calls sa) + 1" by auto
  from eff have eq: "\<forall>r e. a2 = Returned r e \<longrightarrow> sends (calls s2) = sends (calls sa) + 1" by auto
  from assms Inr p sel dn k1 cm eff dn2 k2 le eq show ?thesis
    by (auto simp: CircuitBreakerMultiClient_make_request_def Let_def
        split: option.splits if_splits attempt.splits)
qed

lemma make_request_effect:
  assumes "make_request cls strategy env payload attempt_no timeout s = (a, s1)"
  shows "sends (calls s1) \<le> sends (calls s) + calls_per_attempt cls s \<and> senders s1 = senders s
     \<and> (\<forall>e. a = Raised e \<longrightarrow> e = AttributeError \<or> e = IndexError \<or> e = StopIteration
            \<or> e = KeyError \<or> e = OverflowError
            \<or> e = ResilienceStrategyExhausted CIRCUIT_BREAKER_OPEN)
     \<and> (\<forall>r e. a = Returned r e \<longrightarrow> sends (calls s) < sends (calls s1))
     \<and> sends (calls s) \<le> sends (calls s1)"
proof (cases cls)
  case Client
  with assms Client_make_request_calls [of Client env payload timeout s a s1]
  show ?thesis by (auto simp: calls_per_attempt_def)
next
  case BackoffClient
  with assms BackoffClient_effect [of strategy env payload attempt_no timeout s a s1]
  show ?thesis by (auto simp: calls_per_attempt_def)
next
  case MultiClient
  with assms Client_make_request_calls [of MultiClient env payload timeout s a s1]
  show ?thesis by (auto simp: calls_per_attempt_def)
next
  case HedgingMultiClient
  with assms HedgingMultiClient_effect [of strategy env payload timeout s a s1]
  show ?thesis by (auto simp: calls_per_attempt_def)
next
  case CircuitBreakerMultiClient
  with assms CircuitBreakerMultiClient_effect [of env payload timeout s a s1]
  show ?thesis by (auto simp: calls_per_attempt_def)
qed

subsection \<open>The shape of a run\<close>

lemma retried_not_fast: "retried strategy a \<Longrightarrow> \<not> is_fast_error strategy a \<and> \<not> is_success a"
  by (cases a) auto

lemma all_retried_no_fast:
  "list_all (retried strategy) xs \<Longrightarrow>
   \<not> list_ex (is_fast_error strategy) xs \<and> \<not> list_ex is_success xs
   \<and> filter (retried strategy) xs = xs"
  by (induction xs) (auto dest: retried_not_fast)

lemma run_split:
  assumes "xs \<noteq> []" and "list_all (retried strategy) (butlast xs)"
    and "\<not> retried strategy (last xs)"
  shows "filter (retried strategy) xs = butlast xs
     \<and> list_ex (is_fast_error strategy) xs = is_fast_error strategy (last xs)
     \<and> list_ex is_success xs = is_success (last xs)"
proof -
  from assms(1) have xs: "xs = butlast xs @ [last xs]" by simp
  from all_retried_no_fast [OF assms(2)]
  have b: "\<not> list_ex (is_fast_error strategy) (butlast xs)" "\<not> list_ex is_success (butlast xs)"
    "filter (retried strategy) (butlast xs) = butlast xs" by simp_all
  have "filter (retried strategy) xs = filter (retried strategy) (butlast xs @ [last xs])"
    using xs by simp
  also have "\<dots> = butlast xs" using b(3) assms(3) by simp
  finally have f: "filter (retried strategy) xs = butlast xs" .
  have "list_ex (is_fast_error strategy) xs = list_ex (is_fast_error strategy) (butlast xs @ [last xs])"
    using xs by simp
  also have "\<dots> = is_fast_error strategy (last xs)" using b(1) by (simp add: list_ex_iff)
  finally have g: "list_ex (is_fast_error strategy) xs = is_fast_error strategy (last xs)" .
  have "list_ex is_success xs = list_ex is_success (butlast xs @ [last xs])"
    using xs by simp
  also have "\<dots> = is_success (last xs)" using b(2) by (simp add: list_ex_iff)
  finally have h: "list_ex is_success xs = is_success (last xs)" .
  from f g h show ?thesis by blast
qed

lemma request_never_raises_non_retryable:
  assumes "request cls strategy env payload (c, s) = (res, (c', s'), outcomes)"
  shows "Raised (ResilienceStrategyExhausted NON_RETRYABLE_ERROR) \<notin> set outcomes"
proof
  assume "Raised (ResilienceStrategyExhausted NON_RETRYABLE_ERROR) \<in> set outcomes"
  from run_raised [OF assms [unfolded request_def] this]
  obtain a t s0 s1 where "make_request cls strategy env payload a t s0
      = (Raised (ResilienceStrategyExhausted NON_RETRYABLE_ERROR), s1)" by blast
  from make_request_effect [OF this] show False by simp
qed

subsection \<open>Evaluating a run\<close>

lemmas run_eval = request_def request_loop.simps Client_make_request_def send_await_def
  BackoffClient_make_request_def execute_backoff_def HedgingMultiClient_make_request_def
  CircuitBreakerMultiClient_make_request_def next_sender_def first_completed_def store_def
  counters_init_def Client_init_def MultiClient_init_def CircuitBreakerMultiClient_init_def
  ManagedSender_init_def dict_keys_def is_circuit_open_def failure_rate_def
  recovery_time_def record_success_def record_failure_def deque_append_def datetime_min_def
  datetime_now_def still_world_def total_seconds_def float_pow_def float_mul_def
  exact_pow_def exact_round_def sends_def OK_def Let_def enumerate_eq_zip

section \<open>Results on Client.request\<close>

text \<open>
  C9. With \<open>max_retries = 0\<close> every class of client, in any state and for any payload,
  raises \<open>MAX_RETRIES_EXCEEDED\<close> at once: no attempt is made and the client, with its
  log of sends, is as it was.
\<close>

theorem zero_attempts_never_sends:
  assumes "max_retries strategy = 0"
  shows "request cls strategy env payload (c, s)
       = (Inl (ResilienceStrategyExhausted MAX_RETRIES_EXCEEDED), (c, s), [])"
  using assms by (simp add: request_def request_loop.simps)

theorem zero_attempts_never_sends_witness:
  "max_retries \<lparr>max_retries = 0, latency_budget = 1, fast_errors = [], extra_strategy = NoExtra\<rparr> = 0
   \<and> request Client \<lparr>max_retries = 0, latency_budget = 1, fast_errors = [], extra_strategy = NoExtra\<rparr>
        (still_world (\<lambda>ep payload k. (200, 1 / 10))) () (counters_init, Client_init (0 :: nat) 0)
       = (Inl (ResilienceStrategyExhausted MAX_RETRIES_EXCEEDED),
          (counters_init, Client_init (0 :: nat) 0), [])"
  using zero_attempts_never_sends
    [of "\<lparr>max_retries = 0, latency_budget = 1, fast_errors = [], extra_strategy = NoExtra\<rparr>"
        Client "still_world (\<lambda>ep payload k. (200, 1 / 10))" "()" counters_init "Client_init (0 :: nat) 0"]
  by simp

text \<open>
  C4. A call of \<open>request\<close>, on any class of client, raises \<open>NON_RETRYABLE_ERROR\<close> if and
  only if one of its attempts returned a status in \<open>fast_errors\<close>. That attempt is then the
  last one of the call, every attempt before it was retried, and the two counters hold what
  the attempts before it added: the failing attempt adds nothing to \<open>_current_attempt\<close>
  and \<open>_time_spent\<close>.
\<close>

theorem non_retryable_iff_fast_error:
  assumes "request cls strategy env payload (c, s) = (res, (c', s'), outcomes)"
  shows "(res = Inl (ResilienceStrategyExhausted NON_RETRYABLE_ERROR))
           = list_ex (is_fast_error strategy) outcomes
     \<and> (list_ex (is_fast_error strategy) outcomes \<longrightarrow>
          is_fast_error strategy (last outcomes)
          \<and> list_all (retried strategy) (butlast outcomes)
          \<and> current_attempt c' = current_attempt c + length (butlast outcomes)
          \<and> time_spent c' = time_spent c + sum_list (map elapsed_of (butlast outcomes)))"
proof -
  note loop = assms [unfolded request_def]
  note cnt = run_counters [OF loop]
  from run_shape [OF loop] show ?thesis
  proof (elim disjE conjE)
    assume all: "list_all (retried strategy) outcomes"
      and res: "res = Inl (ResilienceStrategyExhausted
         (if max_retries strategy \<le> int (current_attempt c')
          then MAX_RETRIES_EXCEEDED else LATENCY_BUDGET_EXHAUSTED))"
    from all_retried_no_fast [OF all] res show ?thesis by simp
  next
    assume ne: "outcomes \<noteq> []"
      and all: "list_all (retried strategy) (butlast outcomes)"
      and nr: "\<not> retried strategy (last outcomes)"
      and res: "res = verdict strategy (last outcomes)"
    note sp = run_split [OF ne all nr]
    from ne have mem: "last outcomes \<in> set outcomes" by simp
    have nraise: "last outcomes \<noteq> Raised (ResilienceStrategyExhausted NON_RETRYABLE_ERROR)"
      using request_never_raises_non_retryable [OF assms] mem by metis
    have v: "(verdict strategy (last outcomes) = Inl (ResilienceStrategyExhausted NON_RETRYABLE_ERROR))
          = is_fast_error strategy (last outcomes)"
      using nraise by (cases "last outcomes") auto
    from sp cnt res v all show ?thesis by simp
  qed
qed

lemma two_senders_run:
  "request MultiClient
     \<lparr>max_retries = 3, latency_budget = 1, fast_errors = [400], extra_strategy = NoExtra\<rparr>
     (still_world (\<lambda>ep payload k. (if ep = 0 then 500 else 400, 1 / 10))) ()
     (counters_init,
      \<lparr>sender = 0 :: nat, senders = [0, 1], senders_cycle = 0, managed_senders = [],
        clock = 0, now_calls = 0, calls = []\<rparr>)
   = (Inl (ResilienceStrategyExhausted NON_RETRYABLE_ERROR),
      (\<lparr>current_attempt = 1, time_spent = 1 / 10\<rparr>,
       \<lparr>sender = 1, senders = [0, 1], senders_cycle = 2, managed_senders = [],
         clock = 1 / 5, now_calls = 0, calls = [Send 0, Send 1]\<rparr>),
      [Returned 500 (1 / 10), Returned 400 (1 / 10)])"
  by (simp add: run_eval)

theorem non_retryable_iff_fast_error_witness:
  "list_ex
     (is_fast_error
        \<lparr>max_retries = 3, latency_budget = 1, fast_errors = [400], extra_strategy = NoExtra\<rparr>)
     [Returned 500 (1 / 10), Returned 400 (1 / 10)]
   \<and> current_attempt \<lparr>current_attempt = 1, time_spent = 1 / 10\<rparr>
       = current_attempt counters_init + length (butlast [Returned 500 (1 / 10), Returned 400 (1 / 10)])
   \<and> time_spent \<lparr>current_attempt = 1, time_spent = 1 / 10\<rparr>
       = time_spent counters_init
         + sum_list (map elapsed_of (butlast [Returned 500 (1 / 10), Returned 400 (1 / 10)]))"
  using non_retryable_iff_fast_error [OF two_senders_run] by simp


subsection \<open>What the circuit breaker records\<close>










subsection \<open>Sends of a run\<close>










subsection \<open>Waits of a run of the backoff client\<close>

lemma BackoffClient_waits:
  assumes "BackoffClient_make_request strategy env payload attempt_no timeout s = (a, s1)"
  shows "waits (calls s1) = waits (calls s)
      @ (if 0 < attempt_no then wait_of env strategy attempt_no else [])"
proof (cases "0 < attempt_no")
  case True
  from BackoffClient_retry [OF assms True] True show ?thesis
    by (auto simp: wait_of_def split: sum.splits)
next
  case False
  with assms BackoffClient_first_attempt [of strategy env payload timeout s a s1]
  show ?thesis by simp
qed

lemma upt_from_one: "[max 1 a ..< a + Suc n] = (if 0 < a then [a] else []) @ [max 1 (Suc a) ..< Suc a + n]"
  by (cases a) (simp_all add: upt_conv_Cons max_def)

lemma run_waits:
  assumes "request_loop (make_request BackoffClient strategy env payload) strategy (c, s)
             = (res, (c', s'), outcomes)"
  shows "waits (calls s') = waits (calls s)
      @ concat (map (wait_of env strategy)
          [max 1 (current_attempt c) ..< current_attempt c + length outcomes])"
  using assms
proof (induction rule: request_loop_run_induct)
  case (retry c s s1 result elapsed res c' s' outcomes)
  from retry(3) have "BackoffClient_make_request strategy env payload (current_attempt c)
      (latency_budget strategy - time_spent c) s = (Returned result elapsed, s1)" by simp
  from BackoffClient_waits [OF this] retry(7) upt_from_one [of "current_attempt c" "length outcomes"]
  show ?case by simp
next
  case (max_retries c s)
  then show ?case by simp
next
  case (budget c s)
  then show ?case by simp
next
  case (timed_out c s s1)
  then have "BackoffClient_make_request strategy env payload (current_attempt c)
      (latency_budget strategy - time_spent c) s = (TimedOut, s1)" by simp
  from BackoffClient_waits [OF this] upt_from_one [of "current_attempt c" 0]
  show ?case by simp
next
  case (raised c s s1 e)
  then have "BackoffClient_make_request strategy env payload (current_attempt c)
      (latency_budget strategy - time_spent c) s = (Raised e, s1)" by simp
  from BackoffClient_waits [OF this] upt_from_one [of "current_attempt c" 0]
  show ?case by simp
next
  case (fast_error c s s1 result elapsed)
  then have "BackoffClient_make_request strategy env payload (current_attempt c)
      (latency_budget strategy - time_spent c) s = (Returned result elapsed, s1)" by simp
  from BackoffClient_waits [OF this] upt_from_one [of "current_attempt c" 0]
  show ?case by simp
next
  case (ok c s s1 elapsed)
  then have "BackoffClient_make_request strategy env payload (current_attempt c)
      (latency_budget strategy - time_spent c) s = (Returned OK elapsed, s1)" by simp
  from BackoffClient_waits [OF this] upt_from_one [of "current_attempt c" 0]
  show ?case by simp
qed

text \<open>
  C5, as the code has it. With \<open>BackoffStrategy(initial_delay = d, backoff_factor = f)\<close>,
  the \<open>n\<close>-th attempt, \<open>n \<ge> 2\<close>, computes \<open>f ** (n - 2)\<close> in doubles. When that is out of
  range the attempt raises \<open>OverflowError\<close>, without a wait and without a send. Otherwise
  the delay handed to \<open>_wait\<close> is the double product of \<open>d.total_seconds()\<close> and that
  power, which is \<open>d * f ^ (n - 2)\<close> where the three double operations are exact, and the
  attempt logs that wait before its send, if the budget lets it come to the send. The first
  attempt sends without a wait. With \<open>d = 0\<close> the delay is 0 whenever the power is in range.
  Over a whole call on new counters the waits are those of the attempts after the first, in
  order.
\<close>

theorem backoff_wait_before_attempt:
  assumes "extra_strategy strategy = Backoff b" and "2 \<le> n"
    and "request BackoffClient strategy env payload (counters_init, s0)
           = (res, (c', s'), outcomes)"
  shows "execute_backoff env strategy (n - 1)
           = (case float_pow env (backoff_factor b) (n - 2) of
                Inl e \<Rightarrow> Inl e
              | Inr pw \<Rightarrow> Inr (float_mul env (total_seconds env (initial_delay b)) pw))
     \<and> (case execute_backoff env strategy (n - 1) of
           Inl e \<Rightarrow> BackoffClient_make_request strategy env payload (n - 1) timeout s = (Raised e, s)
         | Inr delay \<Rightarrow>
             calls (snd (BackoffClient_make_request strategy env payload (n - 1) timeout s))
               = calls s @ [Wait delay]
             \<or> calls (snd (BackoffClient_make_request strategy env payload (n - 1) timeout s))
               = calls s @ [Wait delay, Send (sender s)])
     \<and> (float_pow env (backoff_factor b) (n - 2) = Inr (backoff_factor b ^ (n - 2))
          \<and> total_seconds env (initial_delay b) = initial_delay b
          \<and> float_mul env (initial_delay b) (backoff_factor b ^ (n - 2))
               = Finite (initial_delay b * backoff_factor b ^ (n - 2))
         \<longrightarrow> execute_backoff env strategy (n - 1)
               = Inr (Finite (initial_delay b * backoff_factor b ^ (n - 2))))
     \<and> calls (snd (BackoffClient_make_request strategy env payload 0 timeout s))
           = calls s @ [Send (sender s)]
     \<and> execute_backoff env (strategy\<lparr>extra_strategy := Backoff (b\<lparr>initial_delay := 0\<rparr>)\<rparr>) (n - 1)
           = (case float_pow env (backoff_factor b) (n - 2) of
                Inl e \<Rightarrow> Inl e
              | Inr pw \<Rightarrow> Inr (Finite 0))
     \<and> waits (calls s') = waits (calls s0)
          @ concat (map (wait_of env strategy) [1 ..< length outcomes])"
proof -
  from assms(2) have n: "n - 1 - 1 = n - 2" "0 < n - 1" by simp_all
  have e: "execute_backoff env strategy (n - 1)
           = (case float_pow env (backoff_factor b) (n - 2) of
                Inl e \<Rightarrow> Inl e
              | Inr pw \<Rightarrow> Inr (float_mul env (total_seconds env (initial_delay b)) pw))"
    using assms(1) n by (simp add: execute_backoff_def)
  obtain a s1 where at: "BackoffClient_make_request strategy env payload (n - 1) timeout s = (a, s1)"
    by force
  from BackoffClient_retry [OF at n(2)] at
  have r: "case execute_backoff env strategy (n - 1) of
           Inl e \<Rightarrow> BackoffClient_make_request strategy env payload (n - 1) timeout s = (Raised e, s)
         | Inr delay \<Rightarrow>
             calls (snd (BackoffClient_make_request strategy env payload (n - 1) timeout s))
               = calls s @ [Wait delay]
             \<or> calls (snd (BackoffClient_make_request strategy env payload (n - 1) timeout s))
               = calls s @ [Wait delay, Send (sender s)]"
    by (auto split: sum.splits)
  from e have x: "float_pow env (backoff_factor b) (n - 2) = Inr (backoff_factor b ^ (n - 2))
          \<and> total_seconds env (initial_delay b) = initial_delay b
          \<and> float_mul env (initial_delay b) (backoff_factor b ^ (n - 2))
               = Finite (initial_delay b * backoff_factor b ^ (n - 2))
         \<longrightarrow> execute_backoff env strategy (n - 1)
               = Inr (Finite (initial_delay b * backoff_factor b ^ (n - 2)))"
    by simp
  obtain a0 s2 where at0: "BackoffClient_make_request strategy env payload 0 timeout s = (a0, s2)"
    by force
  from BackoffClient_first_attempt [OF at0] at0
  have f: "calls (snd (BackoffClient_make_request strategy env payload 0 timeout s))
           = calls s @ [Send (sender s)]"
    by simp
  have z: "execute_backoff env (strategy\<lparr>extra_strategy := Backoff (b\<lparr>initial_delay := 0\<rparr>)\<rparr>) (n - 1)
           = (case float_pow env (backoff_factor b) (n - 2) of
                Inl e \<Rightarrow> Inl e
              | Inr pw \<Rightarrow> Inr (Finite 0))"
    using n by (simp add: execute_backoff_def total_seconds_def float_mul_def split: sum.splits)
  from run_waits [OF assms(3) [unfolded request_def]]
  have w: "waits (calls s') = waits (calls s0)
          @ concat (map (wait_of env strategy) [1 ..< length outcomes])"
    by (simp add: counters_init_def)
  from e r x f z w show ?thesis by blast
qed

lemma backoff_run:
  "request BackoffClient
     \<lparr>max_retries = 4, latency_budget = 5, fast_errors = [400],
       extra_strategy = Backoff \<lparr>initial_delay = 1 / 10, backoff_factor = 2\<rparr>\<rparr>
     (still_world (\<lambda>ep payload k. (500, 1 / 10))) () (counters_init, Client_init (0 :: nat) 0)
   = (Inl (ResilienceStrategyExhausted MAX_RETRIES_EXCEEDED),
      (\<lparr>current_attempt = 4, time_spent = 11 / 10\<rparr>,
       \<lparr>sender = 0, senders = [], senders_cycle = 0, managed_senders = [], clock = 11 / 10,
         now_calls = 0,
         calls = [Send 0, Wait (Finite (1 / 10)), Send 0, Wait (Finite (1 / 5)), Send 0,
                  Wait (Finite (2 / 5)), Send 0]\<rparr>),
      [Returned 500 (1 / 10), Returned 500 (1 / 5), Returned 500 (3 / 10), Returned 500 (1 / 2)])"
  by (simp add: run_eval)

theorem backoff_wait_before_attempt_witness:
  "(2 :: nat) \<le> 3
   \<and> float_pow (still_world (\<lambda>(ep :: nat) (payload :: unit) k. (500, 1 / 10))) 2 (3 - 2) = Inr (2 ^ (3 - 2))
   \<and> execute_backoff (still_world (\<lambda>(ep :: nat) (payload :: unit) k. (500, 1 / 10)))
        \<lparr>max_retries = 4, latency_budget = 5, fast_errors = [400],
          extra_strategy = Backoff \<lparr>initial_delay = 1 / 10, backoff_factor = 2\<rparr>\<rparr> (3 - 1)
       = Inr (Finite (1 / 5))
   \<and> waits [Send (0 :: nat), Wait (Finite (1 / 10)), Send 0, Wait (Finite (1 / 5)), Send 0,
             Wait (Finite (2 / 5)), Send 0]
       = [Finite (1 / 10), Finite (1 / 5), Finite (2 / 5)]"
  using backoff_wait_before_attempt [OF _ _ backoff_run, of "\<lparr>initial_delay = 1 / 10, backoff_factor = 2\<rparr>" 3]
  by (simp add: run_eval)

text \<open>
  C5 as stated fails: with \<open>initial_delay = 0\<close> and \<open>backoff_factor = 10.0\<close> the 311th
  attempt computes \<open>10.0 ** 309\<close>, which is beyond the doubles, and raises
  \<open>OverflowError\<close> where the claim has a wait of zero.
\<close>

theorem backoff_power_overflows:
  "execute_backoff (still_world (\<lambda>(ep :: nat) (payload :: unit) k. (500, 1 / 1000)))
     \<lparr>max_retries = 400, latency_budget = 5, fast_errors = [],
       extra_strategy = Backoff \<lparr>initial_delay = 0, backoff_factor = 10\<rparr>\<rparr> (311 - 1)
   = Inl OverflowError
   \<and> BackoffClient_make_request
       \<lparr>max_retries = 400, latency_budget = 5, fast_errors = [],
         extra_strategy = Backoff \<lparr>initial_delay = 0, backoff_factor = 10\<rparr>\<rparr>
       (still_world (\<lambda>(ep :: nat) (payload :: unit) k. (500, 1 / 1000))) () (311 - 1) 1
       (Client_init 0 0)
     = (Raised OverflowError, Client_init 0 0)"
  by (simp add: run_eval)


text \<open>
  C10. An attempt of the hedging client whose main sender answers within \<open>hedging_delay\<close>
  makes exactly one send, the one to the main sender, and gives the answer of the main
  sender, or a timeout when the budget is shorter than that answer took.
\<close>

theorem hedging_primary_in_time:
  assumes "extra_strategy strategy = Hedging params"
    and "select_sender HedgingMultiClient env s = Inr (main_sender, s1)"
    and "snd (transport env main_sender payload (sends (calls s))) < hedging_delay params"
  shows "calls (snd (HedgingMultiClient_make_request strategy env payload timeout s))
           = calls s @ [Send main_sender]
     \<and> sends (calls (snd (HedgingMultiClient_make_request strategy env payload timeout s)))
           = sends (calls s) + 1
     \<and> fst (HedgingMultiClient_make_request strategy env payload timeout s)
           = (if snd (transport env main_sender payload (sends (calls s))) < timeout
              then Returned (fst (transport env main_sender payload (sends (calls s))))
                     (snd (transport env main_sender payload (sends (calls s))))
              else TimedOut)"
proof -
  from assms(2) have ns: "next_sender s = Inr (main_sender, s1)" by simp
  from next_sender_in [OF ns] have c: "calls s1 = calls s" by simp
  from assms ns c show ?thesis
    by (simp add: HedgingMultiClient_make_request_def Let_def)
qed

theorem hedging_primary_in_time_witness:
  "snd (transport (still_world (\<lambda>ep payload k. (OK, 1 / 10 :: rat))) (0 :: nat) ()
          (sends ([] :: nat event list))) < 1
   \<and> calls (snd (HedgingMultiClient_make_request
        \<lparr>max_retries = 1, latency_budget = 5, fast_errors = [],
          extra_strategy = Hedging \<lparr>hedging_delay = 1\<rparr>\<rparr>
        (still_world (\<lambda>ep payload k. (OK, 1 / 10))) () 5
        \<lparr>sender = 0 :: nat, senders = [0, 1, 2], senders_cycle = 0, managed_senders = [],
          clock = 0, now_calls = 0, calls = []\<rparr>))
      = [Send 0]"
  using hedging_primary_in_time
    [of "\<lparr>max_retries = 1, latency_budget = 5, fast_errors = [],
          extra_strategy = Hedging \<lparr>hedging_delay = 1\<rparr>\<rparr>" "\<lparr>hedging_delay = 1\<rparr>"
        "still_world (\<lambda>ep payload k. (OK, 1 / 10))"
        "\<lparr>sender = 0 :: nat, senders = [0, 1, 2], senders_cycle = 0, managed_senders = [],
          clock = 0, now_calls = 0, calls = []\<rparr>" 0
        "\<lparr>sender = 0 :: nat, senders = [0, 1, 2], senders_cycle = 1, managed_senders = [],
          clock = 0, now_calls = 0, calls = []\<rparr>" "()" 5]
  by (simp add: next_sender_def still_world_def)


section \<open>Results on the health-ranked selector\<close>

text \<open>
  What the code selects: the last sender of the list sorted by
  \<open>(not is_circuit_open, -failure_rate, recovery_time)\<close>, a sender whose key is the greatest.
  That is a closed circuit before an open one and a lower failure rate before a higher one,
  and then the \<^emph>\<open>longest\<close> time until recovery.
\<close>

lemma sorted_le_last: "sorted xs \<Longrightarrow> x \<in> set xs \<Longrightarrow> x \<le> last xs"
  by (induction xs) auto

lemma select_sender_maximal:
  assumes "select_sender CircuitBreakerMultiClient env s = Inr (ep, s1)"
  shows "\<exists>(k, m) \<in> set (zip (fst (health_keys env (map snd (managed_senders s)) s))
                            (map snd (managed_senders s))).
           managed m = ep
           \<and> (\<forall>(k', m') \<in> set (zip (fst (health_keys env (map snd (managed_senders s)) s))
                                     (map snd (managed_senders s))). k' \<le> k)"
proof -
  let ?ps = "zip (fst (health_keys env (map snd (managed_senders s)) s)) (map snd (managed_senders s))"
  let ?ys = "sort_key fst ?ps"
  from assms have ne: "?ys \<noteq> []" and ep: "ep = managed (snd (last ?ys))"
    by (auto simp: Let_def last_map split: list.splits prod.splits)
  have srt: "sorted (map fst ?ys)" by (rule sorted_sort_key)
  from ne have "last ?ys \<in> set ?ys" by (rule last_in_set)
  then have mem: "last ?ys \<in> set ?ps" by simp
  have le: "\<And>p. p \<in> set ?ps \<Longrightarrow> fst p \<le> fst (last ?ys)"
  proof -
    fix p assume "p \<in> set ?ps"
    then have "fst p \<in> set (map fst ?ys)" by simp
    from sorted_le_last [OF srt this] ne show "fst p \<le> fst (last ?ys)"
      by (simp add: last_map)
  qed
  obtain k m where lm: "last ?ys = (k, m)" by (rule prod.exhaust)
  have all: "\<forall>(k', m') \<in> set ?ps. k' \<le> k"
  proof (rule ballI)
    fix p assume p: "p \<in> set ?ps"
    from le [OF p] lm show "case p of (k', m') \<Rightarrow> k' \<le> k"
      by (cases p) simp
  qed
  from ep lm have "managed m = ep" by simp
  with all have "case (k, m) of (k, m) \<Rightarrow>
      managed m = ep \<and> (\<forall>(k', m') \<in> set ?ps. k' \<le> k)" by simp
  with mem [unfolded lm] show ?thesis by (rule rev_bexI)
qed

text \<open>
  With a clock that moves on by a microsecond at every call of \<open>datetime.now()\<close>, the
  senders of a new client, all tied, are tried first to last: two senders that fail and open,
  and a third that answers \<open>OK\<close>.
\<close>

lemma moving_clock_run:
  "request CircuitBreakerMultiClient
     \<lparr>max_retries = 5, latency_budget = 1, fast_errors = [],
       extra_strategy = CircuitBreaker \<lparr>window_size = 4, failure_threshold = 1 / 2, recovery_timeout = 1\<rparr>\<rparr>
     ((still_world (\<lambda>ep payload k. (if ep = 2 then 200 else 500, 1 / 10)))
        \<lparr>now_jitter := (\<lambda>k. of_nat k / 1000000)\<rparr>) ()
     (counters_init,
      \<lparr>sender = 0 :: nat, senders = [0, 1, 2], senders_cycle = 0,
        managed_senders =
          [(0, ManagedSender_init \<lparr>window_size = 4, failure_threshold = 1 / 2, recovery_timeout = 1\<rparr> 0),
           (1, ManagedSender_init \<lparr>window_size = 4, failure_threshold = 1 / 2, recovery_timeout = 1\<rparr> 1),
           (2, ManagedSender_init \<lparr>window_size = 4, failure_threshold = 1 / 2, recovery_timeout = 1\<rparr> 2)],
        clock = 0, now_calls = 0, calls = []\<rparr>)
   = (Inr 200,
      (\<lparr>current_attempt = 2, time_spent = 1 / 5\<rparr>,
       \<lparr>sender = 2, senders = [0, 1, 2], senders_cycle = 0,
         managed_senders =
           [(0, \<lparr>cb_strategy = \<lparr>window_size = 4, failure_threshold = 1 / 2, recovery_timeout = 1\<rparr>,
                last_results = [False], recover_at = 1100013 / 1000000, managed = 0\<rparr>),
            (1, \<lparr>cb_strategy = \<lparr>window_size = 4, failure_threshold = 1 / 2, recovery_timeout = 1\<rparr>,
                last_results = [False], recover_at = 1200027 / 1000000, managed = 1\<rparr>),
            (2, \<lparr>cb_strategy = \<lparr>window_size = 4, failure_threshold = 1 / 2, recovery_timeout = 1\<rparr>,
                last_results = [True], recover_at = 0, managed = 2\<rparr>)],
         clock = 3 / 10, now_calls = 41, calls = [Send 0, Send 1, Send 2]\<rparr>),
      [Returned 500 (1 / 10), Returned 500 (1 / 10), Returned 200 (1 / 10)])"
  by (simp add: run_eval)

text \<open>
  A call on a new client with two senders that always fail: each sender fails once and
  opens, the later one for longer.
\<close>

lemma circuit_breaker_opening_run:
  "request CircuitBreakerMultiClient
     \<lparr>max_retries = 5, latency_budget = 5, fast_errors = [],
       extra_strategy = CircuitBreaker \<lparr>window_size = 4, failure_threshold = 1 / 2, recovery_timeout = 2\<rparr>\<rparr>
     (still_world (\<lambda>ep (payload :: unit) k. (500, 1 / 10))) ()
     (counters_init,
      \<lparr>sender = 0 :: nat, senders = [0, 1], senders_cycle = 0,
        managed_senders =
          [(0, ManagedSender_init \<lparr>window_size = 4, failure_threshold = 1 / 2, recovery_timeout = 2\<rparr> 0),
           (1, ManagedSender_init \<lparr>window_size = 4, failure_threshold = 1 / 2, recovery_timeout = 2\<rparr> 1)],
        clock = 0, now_calls = 0, calls = []\<rparr>)
   = (Inl (ResilienceStrategyExhausted CIRCUIT_BREAKER_OPEN),
      (\<lparr>current_attempt = 2, time_spent = 1 / 5\<rparr>,
       \<lparr>sender = 0, senders = [0, 1], senders_cycle = 0,
       managed_senders =
         [(0, \<lparr>cb_strategy = \<lparr>window_size = 4, failure_threshold = 1 / 2, recovery_timeout = 2\<rparr>,
                last_results = [False], recover_at = 11 / 5, managed = 0\<rparr>),
          (1, \<lparr>cb_strategy = \<lparr>window_size = 4, failure_threshold = 1 / 2, recovery_timeout = 2\<rparr>,
                last_results = [False], recover_at = 21 / 10, managed = 1\<rparr>)],
       clock = 1 / 5, now_calls = 25, calls = [Send 1, Send 0]\<rparr>),
      [Returned 500 (1 / 10), Returned 500 (1 / 10),
       Raised (ResilienceStrategyExhausted CIRCUIT_BREAKER_OPEN)])"
  by (simp add: run_eval)

text \<open>
  C2, on the state that run leaves. Both circuits are open at the same failure rate, sender 1
  recovers sooner than sender 0, so sender 1 is the smaller under
  \<open>(is_open, failure_rate, time_until_recovery)\<close>; \<open>_select_sender\<close> returns sender 0,
  with a clock that stands still as with one that moves on by a microsecond at every call of
  \<open>datetime.now()\<close>.
\<close>

theorem select_sender_longest_recovery:
  "select_sender CircuitBreakerMultiClient (still_world (\<lambda>ep (payload :: unit) k. (500, 1 / 10)))
     \<lparr>sender = 1 :: nat, senders = [0, 1], senders_cycle = 0,
       managed_senders =
         [(0, \<lparr>cb_strategy = \<lparr>window_size = 4, failure_threshold = 1 / 2, recovery_timeout = 2\<rparr>,
                last_results = [False], recover_at = 11 / 5, managed = 0\<rparr>),
          (1, \<lparr>cb_strategy = \<lparr>window_size = 4, failure_threshold = 1 / 2, recovery_timeout = 2\<rparr>,
                last_results = [False], recover_at = 21 / 10, managed = 1\<rparr>)],
       clock = 1 / 5, now_calls = 20, calls = [Send 1, Send 0]\<rparr>
   = Inr (0,
     \<lparr>sender = 0, senders = [0, 1], senders_cycle = 0,
       managed_senders =
         [(0, \<lparr>cb_strategy = \<lparr>window_size = 4, failure_threshold = 1 / 2, recovery_timeout = 2\<rparr>,
                last_results = [False], recover_at = 11 / 5, managed = 0\<rparr>),
          (1, \<lparr>cb_strategy = \<lparr>window_size = 4, failure_threshold = 1 / 2, recovery_timeout = 2\<rparr>,
                last_results = [False], recover_at = 21 / 10, managed = 1\<rparr>)],
       clock = 1 / 5, now_calls = 24, calls = [Send 1, Send 0]\<rparr>)
   \<and> select_sender CircuitBreakerMultiClient
       ((still_world (\<lambda>ep (payload :: unit) k. (500, 1 / 10)))\<lparr>now_jitter := (\<lambda>k. of_nat k / 1000000)\<rparr>)
     \<lparr>sender = 1 :: nat, senders = [0, 1], senders_cycle = 0,
       managed_senders =
         [(0, \<lparr>cb_strategy = \<lparr>window_size = 4, failure_threshold = 1 / 2, recovery_timeout = 2\<rparr>,
                last_results = [False], recover_at = 11 / 5, managed = 0\<rparr>),
          (1, \<lparr>cb_strategy = \<lparr>window_size = 4, failure_threshold = 1 / 2, recovery_timeout = 2\<rparr>,
                last_results = [False], recover_at = 21 / 10, managed = 1\<rparr>)],
       clock = 1 / 5, now_calls = 20, calls = [Send 1, Send 0]\<rparr>
   = Inr (0,
     \<lparr>sender = 0, senders = [0, 1], senders_cycle = 0,
       managed_senders =
         [(0, \<lparr>cb_strategy = \<lparr>window_size = 4, failure_threshold = 1 / 2, recovery_timeout = 2\<rparr>,
                last_results = [False], recover_at = 11 / 5, managed = 0\<rparr>),
          (1, \<lparr>cb_strategy = \<lparr>window_size = 4, failure_threshold = 1 / 2, recovery_timeout = 2\<rparr>,
                last_results = [False], recover_at = 21 / 10, managed = 1\<rparr>)],
       clock = 1 / 5, now_calls = 24, calls = [Send 1, Send 0]\<rparr>)
   \<and> (is_circuit_open
         \<lparr>cb_strategy = \<lparr>window_size = 4, failure_threshold = 1 / 2, recovery_timeout = 2\<rparr>,
                last_results = [False], recover_at = 21 / 10, managed = 1 :: nat\<rparr> (1 / 5),
       failure_rate
         \<lparr>cb_strategy = \<lparr>window_size = 4, failure_threshold = 1 / 2, recovery_timeout = 2\<rparr>,
                last_results = [False], recover_at = 21 / 10, managed = 1 :: nat\<rparr>,
       max 0 (recovery_time
         \<lparr>cb_strategy = \<lparr>window_size = 4, failure_threshold = 1 / 2, recovery_timeout = 2\<rparr>,
                last_results = [False], recover_at = 21 / 10, managed = 1 :: nat\<rparr> (1 / 5)))
     < (is_circuit_open
         \<lparr>cb_strategy = \<lparr>window_size = 4, failure_threshold = 1 / 2, recovery_timeout = 2\<rparr>,
                last_results = [False], recover_at = 11 / 5, managed = 0 :: nat\<rparr> (1 / 5),
       failure_rate
         \<lparr>cb_strategy = \<lparr>window_size = 4, failure_threshold = 1 / 2, recovery_timeout = 2\<rparr>,
                last_results = [False], recover_at = 11 / 5, managed = 0 :: nat\<rparr>,
       max 0 (recovery_time
         \<lparr>cb_strategy = \<lparr>window_size = 4, failure_threshold = 1 / 2, recovery_timeout = 2\<rparr>,
                last_results = [False], recover_at = 11 / 5, managed = 0 :: nat\<rparr> (1 / 5)))"
  by (simp add: run_eval)

end
